theory Spec2Isabelle
  imports Complex_Main
begin

section \<open>The training driver \<open>run\<close> of pytorchyolo/train.py\<close>

text \<open>
  The theory embeds the body of \<open>run\<close> (train.py, lines 148 to 341): the optimizer
  selection, the epoch loop, the batch loop with its learning-rate schedule, the
  checkpoint and evaluation blocks and the two loss-only loops that follow them.

  What the script does not implement is taken as a parameter: the batches of the two
  data loaders, the loss and its gradient, the optimizer's update and \<open>_evaluate\<close>
  are fields of a record of collaborators. Python floats are idealised as reals,
  Python integers are \<open>int\<close>, and counters that \<open>range\<close> and \<open>enumerate\<close>
  produce (epoch, batch index, batches done) are \<open>nat\<close>. Every call with an effect
  outside the function (printing, logging, saving, optimizer calls) appends an event
  to the trace of the state, in program order; every exception the body itself can
  raise, and the \<open>ValueError\<close> with which the torch optimizer constructors reject a
  negative argument, is a value of \<open>py_error\<close>, returned with the state reached.
\<close>

subsection \<open>Data\<close>

datatype py_error = ZeroDivisionError | UnboundLocalError string | IndexError | ValueError string

text \<open>\<open>model.hyperparams\<close>: the entries the body reads.\<close>

record hyperparams =
  batch :: int
  subdivisions :: int
  optimizer_name :: "string option"
  learning_rate :: real
  decay :: real
  momentum :: real
  burn_in :: int
  lr_steps :: "(int \<times> real) list"

text \<open>The run parameters the body reads (the Sacred configuration).\<close>

record config =
  epochs :: int
  verbose :: bool
  checkpoint_interval :: int
  evaluation_interval :: int

text \<open>
  A torch optimizer as far as the script touches it: which constructor built it, the
  \<open>lr\<close> entry of each of its parameter groups, and the constructor's other arguments.
\<close>

datatype optimizer_kind = Adam | SGD

record optim =
  kind :: optimizer_kind
  param_groups :: "real list"
  weight_decay :: real
  sgd_momentum :: "real option"

datatype loader = TrainingLoader | ValidationLoader

datatype event =
    Print string
  | PrintTable real real real real real
  | ModelTrain
  | Forward
  | ComputeLoss real
  | Backward
  | ScalarSummary string real nat
  | ListOfScalarsSummary "(string \<times> real) list" nat
  | ExLogScalar string real nat
  | SetLR real
  | OptimizerStep
  | ZeroGrad
  | TorchSave string
  | Evaluate loader

text \<open>
  The objects and local variables of \<open>run\<close> that outlive one statement. A local that
  may be read before it was ever assigned (\<open>optimizer\<close>, \<open>evaluation_metrics\<close>,
  \<open>loss\<close>) is an option, \<open>None\<close> while unbound. \<open>best_mAP\<close> is assigned at the top
  of every epoch before any read.
\<close>

record ('p, 'g) state =
  params :: 'p
  grads :: 'g
  seen :: int
  optimizer :: "optim option"
  best_mAP :: real
  evaluation_metrics :: "(string \<times> real) list option"
  loss :: "real option"
  trace :: "event list"

text \<open>
  The collaborators: \<open>imgs.size(0)\<close> of a batch; \<open>compute_loss(model(imgs), targets,
  model)\<close> as the loss and its four components; the gradient that \<open>loss.backward()\<close>
  adds to the accumulated one; \<open>optimizer.step()\<close>; and \<open>_evaluate\<close>, which returns
  \<open>None\<close> or the arrays precision, recall, AP, f1 and ap_class.
\<close>

record ('b, 'p, 'g) collab =
  imgs_size :: "'b \<Rightarrow> nat"
  compute_loss :: "'p \<Rightarrow> 'b \<Rightarrow> real \<times> real \<times> real \<times> real \<times> real"
  backward :: "'p \<Rightarrow> 'b \<Rightarrow> 'g"
  optimizer_step :: "optim \<Rightarrow> 'p \<Rightarrow> 'g \<Rightarrow> 'p"
  evaluate :: "'p \<Rightarrow> 'b list \<Rightarrow> (real list \<times> real list \<times> real list \<times> real list \<times> int list) option"

type_synonym ('p, 'g) result = "(py_error \<times> ('p, 'g) state) + ('p, 'g) state"

definition emit :: "event list \<Rightarrow> ('p, 'g) state \<Rightarrow> ('p, 'g) state" where
  "emit evs st = st\<lparr>trace := trace st @ evs\<rparr>"

text \<open>Sequencing: an exception ends the run with the state reached.\<close>

definition and_then :: "('p, 'g) result \<Rightarrow> (('p, 'g) state \<Rightarrow> ('p, 'g) result) \<Rightarrow> ('p, 'g) result" where
  "and_then r f = (case r of Inl e \<Rightarrow> Inl e | Inr st \<Rightarrow> f st)"

text \<open>
  The state a result carries, whether the body returned or raised, and the events a
  piece of the body added to the trace.
\<close>

definition result_state :: "('p, 'g) result \<Rightarrow> ('p, 'g) state" where
  "result_state r = (case r of Inl (e, st) \<Rightarrow> st | Inr st \<Rightarrow> st)"

definition raised :: "('p, 'g) result \<Rightarrow> py_error option" where
  "raised r = (case r of Inl (e, st) \<Rightarrow> Some e | Inr st \<Rightarrow> None)"

definition new_events :: "('p, 'g) state \<Rightarrow> ('p, 'g) state \<Rightarrow> event list" where
  "new_events st st' = drop (length (trace st)) (trace st')"

subsection \<open>Optimizer selection (lines 175 to 188)\<close>

text \<open>
  The constructors \<open>optim.Adam\<close> and \<open>optim.SGD\<close> validate their arguments before
  they build anything: \<open>Adam\<close> raises \<open>ValueError\<close> unless \<open>0 <= lr\<close> and then unless
  \<open>0 <= weight_decay\<close> (its \<open>eps\<close> and \<open>betas\<close> keep their valid defaults); \<open>SGD\<close>
  raises it when \<open>lr < 0\<close>, then when \<open>momentum < 0\<close>, then when \<open>weight_decay < 0\<close>.
  The error carries the name of the rejected argument. The list \<open>params\<close> is taken to be
  non-empty, as it is for every model \<open>load_model\<close> builds. With any other name the
  script prints a line and leaves \<open>optimizer\<close> unbound.
\<close>

definition create_optimizer :: "hyperparams \<Rightarrow> ('p, 'g) state \<Rightarrow> ('p, 'g) result" where
  "create_optimizer hp st =
     (if optimizer_name hp \<in> {None, Some ''adam''} then
        (if \<not> 0 \<le> learning_rate hp then Inl (ValueError ''lr'', st)
         else if \<not> 0 \<le> decay hp then Inl (ValueError ''weight_decay'', st)
         else Inr (st\<lparr>optimizer := Some \<lparr>kind = Adam, param_groups = [learning_rate hp],
                                 weight_decay = decay hp, sgd_momentum = None\<rparr>\<rparr>))
      else if optimizer_name hp = Some ''sgd'' then
        (if learning_rate hp < 0 then Inl (ValueError ''lr'', st)
         else if momentum hp < 0 then Inl (ValueError ''momentum'', st)
         else if decay hp < 0 then Inl (ValueError ''weight_decay'', st)
         else Inr (st\<lparr>optimizer := Some \<lparr>kind = SGD, param_groups = [learning_rate hp],
                                 weight_decay = decay hp, sgd_momentum = Some (momentum hp)\<rparr>\<rparr>))
      else Inr (emit [Print ''Unknown optimizer. Please choose between (adam, sgd).''] st))"

subsection \<open>Learning-rate schedule (lines 218 to 226)\<close>

fun lr_steps_loop :: "nat \<Rightarrow> (int \<times> real) list \<Rightarrow> real \<Rightarrow> real" where
  "lr_steps_loop batches_done [] lr = lr"
| "lr_steps_loop batches_done ((threshold, v) # rest) lr =
     lr_steps_loop batches_done rest (if int batches_done > threshold then lr * v else lr)"

definition adapt_lr :: "hyperparams \<Rightarrow> nat \<Rightarrow> real" where
  "adapt_lr hp batches_done =
     (if int batches_done < burn_in hp
      then learning_rate hp * (real batches_done / real_of_int (burn_in hp))
      else lr_steps_loop batches_done (lr_steps hp) (learning_rate hp))"

subsection \<open>One training batch (lines 200 to 262)\<close>

text \<open>Lines 216 to 236, the body of \<open>if batches_done % subdivisions == 0\<close>.\<close>

definition run_optimizer ::
  "('b, 'p, 'g::comm_monoid_add) collab \<Rightarrow> hyperparams \<Rightarrow> nat \<Rightarrow> ('p, 'g) state \<Rightarrow> ('p, 'g) result" where
  "run_optimizer C hp batches_done st =
     (let lr = adapt_lr hp batches_done;
          st1 = emit [ScalarSummary ''train/learning_rate'' lr batches_done] st
      in case optimizer st1 of
           None \<Rightarrow> Inl (UnboundLocalError ''optimizer'', st1)
         | Some opt \<Rightarrow>
             let opt' = opt\<lparr>param_groups := map (\<lambda>g. lr) (param_groups opt)\<rparr>;
                 st2 = emit (map (\<lambda>g. SetLR lr) (param_groups opt)) (st1\<lparr>optimizer := Some opt'\<rparr>);
                 st3 = emit [OptimizerStep]
                         (st2\<lparr>params := optimizer_step C opt' (params st2) (grads st2)\<rparr>);
                 st4 = emit [ZeroGrad] (st3\<lparr>grads := 0\<rparr>)
             in Inr st4)"

definition train_batch ::
  "('b, 'p, 'g::comm_monoid_add) collab \<Rightarrow> hyperparams \<Rightarrow> bool \<Rightarrow> nat \<Rightarrow> nat \<Rightarrow> nat \<Rightarrow> 'b
     \<Rightarrow> ('p, 'g) state \<Rightarrow> ('p, 'g) result" where
  "train_batch C hp verb len_loader epoch batch_i b st =
     (let batches_done = len_loader * epoch + batch_i;
          (l, c0, c1, c2, c3) = compute_loss C (params st) b;
          st1 = emit [Forward, ComputeLoss l] (st\<lparr>loss := Some l\<rparr>);
          st2 = emit [Backward] (st1\<lparr>grads := grads st1 + backward C (params st1) b\<rparr>)
      in if subdivisions hp = 0 then Inl (ZeroDivisionError, st2)
         else and_then
           (if int batches_done mod subdivisions hp = 0
            then run_optimizer C hp batches_done st2 else Inr st2)
           (\<lambda>st3.
              let st4 = (if verb then emit [PrintTable c0 c1 c2 c3 l] st3 else st3);
                  st5 = emit [ListOfScalarsSummary
                                [(''train/iou_loss'', c0), (''train/obj_loss'', c1),
                                 (''train/class_loss'', c2), (''train/loss'', l)]
                                batches_done] st4
              in Inr (st5\<lparr>seen := seen st5 + int (imgs_size C b)\<rparr>)))"

text \<open>The batch loop over \<open>enumerate(training_dataloader)\<close> (line 199).\<close>

fun train_loop ::
  "('b, 'p, 'g::comm_monoid_add) collab \<Rightarrow> hyperparams \<Rightarrow> bool \<Rightarrow> nat \<Rightarrow> nat \<Rightarrow> (nat \<times> 'b) list
     \<Rightarrow> ('p, 'g) state \<Rightarrow> ('p, 'g) result" where
  "train_loop C hp verb len_loader epoch [] st = Inr st"
| "train_loop C hp verb len_loader epoch ((batch_i, b) # rest) st =
     and_then (train_batch C hp verb len_loader epoch batch_i b st)
       (train_loop C hp verb len_loader epoch rest)"

subsection \<open>After the batch loop (lines 266 to 276)\<close>

definition log_train_loss :: "nat \<Rightarrow> ('p, 'g) state \<Rightarrow> ('p, 'g) result" where
  "log_train_loss epoch st =
     (case loss st of
        None \<Rightarrow> Inl (UnboundLocalError ''loss'', st)
      | Some l \<Rightarrow> Inr (emit [ExLogScalar ''train-loss'' l (epoch + 1)] st))"

text \<open>\<open>str(epoch)\<close> for a non-negative integer, as the f-string formats it.\<close>

fun str_nat :: "nat \<Rightarrow> string" where
  "str_nat n =
     (if n < 10 then [char_of (48 + n)] else str_nat (n div 10) @ [char_of (48 + n mod 10)])"

definition checkpoint_path :: "nat \<Rightarrow> string" where
  "checkpoint_path epoch = ''checkpoints/yolov3_ckpt_'' @ str_nat epoch @ ''.pth''"

definition best_checkpoint_path :: string where
  "best_checkpoint_path = ''checkpoints/best_ckpt.pth''"

definition quoted :: "string \<Rightarrow> string" where
  "quoted s = [CHR 0x27] @ s @ [CHR 0x27]"

definition save_checkpoint :: "config \<Rightarrow> nat \<Rightarrow> ('p, 'g) state \<Rightarrow> ('p, 'g) result" where
  "save_checkpoint cfg epoch st =
     (if checkpoint_interval cfg = 0 then Inl (ZeroDivisionError, st)
      else if int epoch mod checkpoint_interval cfg = 0 then
        Inr (emit [Print (''---- Saving checkpoint to: '' @ quoted (checkpoint_path epoch) @ '' ----''),
                   TorchSave (checkpoint_path epoch)] st)
      else Inr st)"

subsection \<open>Evaluation (lines 282 to 319)\<close>

text \<open>
  \<open>ndarray.mean()\<close> over the reals. On an empty array numpy yields nan, which compares
  false with everything; the quotient below is 0 there.
\<close>

definition np_mean :: "real list \<Rightarrow> real" where
  "np_mean xs = sum_list xs / real (length xs)"

text \<open>
  One iteration of \<open>for subset in ['training', 'validation']\<close>, in two parts. Lines 286
  to 312: evaluate the model on the subset's loader and, when metrics come back, bind
  \<open>evaluation_metrics\<close> and log every metric to both sinks.
\<close>

definition evaluate_and_log ::
  "('b, 'p, 'g) collab \<Rightarrow> 'b list \<Rightarrow> 'b list \<Rightarrow> nat \<Rightarrow> string \<Rightarrow> ('p, 'g) state \<Rightarrow> ('p, 'g) state" where
  "evaluate_and_log C tdl vdl epoch subset_name st =
     (let st1 = emit [Print (''Evaluate '' @ subset_name @ '' set'')] st;
          metrics_output =
            (if subset_name = ''training'' then evaluate C (params st1) tdl
             else evaluate C (params st1) vdl);
          st2 = emit [Evaluate (if subset_name = ''training'' then TrainingLoader
                                else ValidationLoader)] st1
      in case metrics_output of
           None \<Rightarrow> st2
         | Some (precision, recall, AP, f1, ap_class) \<Rightarrow>
             let metrics = [(''precision'', np_mean precision), (''recall'', np_mean recall),
                            (''mAP'', np_mean AP), (''f1'', np_mean f1)]
             in emit (concat (map (\<lambda>metric.
                        [ExLogScalar (subset_name @ ''.'' @ fst metric) (snd metric) (epoch + 1),
                         ListOfScalarsSummary metrics epoch]) metrics))
                  (st2\<lparr>evaluation_metrics := Some metrics\<rparr>))"

text \<open>
  Lines 314 to 319: for the validation subset, read \<open>evaluation_metrics[2][1]\<close> and save
  the best checkpoint when it exceeds \<open>best_mAP\<close>.
\<close>

definition save_best :: "string \<Rightarrow> ('p, 'g) state \<Rightarrow> ('p, 'g) result" where
  "save_best subset_name st =
     (if subset_name = ''validation'' then
        (case evaluation_metrics st of
           None \<Rightarrow> Inl (UnboundLocalError ''evaluation_metrics'', st)
         | Some metrics \<Rightarrow>
             if length metrics \<le> 2 then Inl (IndexError, st)
             else if snd (metrics ! 2) > best_mAP st then
               Inr (emit [Print (''---- Saving best checkpoint to: ''
                                  @ quoted best_checkpoint_path @ '' ----''),
                          TorchSave best_checkpoint_path] st)
             else Inr st)
      else Inr st)"

definition evaluate_subset ::
  "('b, 'p, 'g) collab \<Rightarrow> 'b list \<Rightarrow> 'b list \<Rightarrow> nat \<Rightarrow> string \<Rightarrow> ('p, 'g) state \<Rightarrow> ('p, 'g) result" where
  "evaluate_subset C tdl vdl epoch subset_name st =
     save_best subset_name (evaluate_and_log C tdl vdl epoch subset_name st)"

text \<open>The loop \<open>for subset in ['training', 'validation']\<close> (lines 285 to 319).\<close>

fun evaluate_subsets ::
  "('b, 'p, 'g) collab \<Rightarrow> 'b list \<Rightarrow> 'b list \<Rightarrow> nat \<Rightarrow> string list \<Rightarrow> ('p, 'g) state \<Rightarrow> ('p, 'g) result" where
  "evaluate_subsets C tdl vdl epoch [] st = Inr st"
| "evaluate_subsets C tdl vdl epoch (subset_name # rest) st =
     and_then (evaluate_subset C tdl vdl epoch subset_name st)
       (evaluate_subsets C tdl vdl epoch rest)"

subsection \<open>The loops after the evaluation (lines 322 to 341)\<close>

text \<open>
  Both loops run the model and \<open>compute_loss\<close> on every batch of a loader and rebind
  \<open>loss\<close>; neither calls \<open>backward\<close>.
\<close>

fun loss_loop :: "('b, 'p, 'g) collab \<Rightarrow> 'b list \<Rightarrow> ('p, 'g) state \<Rightarrow> ('p, 'g) state" where
  "loss_loop C [] st = st"
| "loss_loop C (b # bs) st =
     (let (l, c0, c1, c2, c3) = compute_loss C (params st) b
      in loss_loop C bs (emit [Forward, ComputeLoss l] (st\<lparr>loss := Some l\<rparr>)))"

definition log_val_loss :: "nat \<Rightarrow> ('p, 'g) state \<Rightarrow> ('p, 'g) result" where
  "log_val_loss epoch st =
     (case loss st of
        None \<Rightarrow> Inl (UnboundLocalError ''loss'', st)
      | Some l \<Rightarrow> Inr (emit [ExLogScalar ''val-loss'' l (epoch + 1)] st))"

definition second_loops ::
  "('b, 'p, 'g) collab \<Rightarrow> 'b list \<Rightarrow> 'b list \<Rightarrow> nat \<Rightarrow> ('p, 'g) state \<Rightarrow> ('p, 'g) result" where
  "second_loops C tdl vdl epoch st = log_val_loss epoch (loss_loop C vdl (loss_loop C tdl st))"

text \<open>The block \<open>if epoch % evaluation_interval == 0\<close> (lines 282 to 341).\<close>

definition evaluate_model ::
  "('b, 'p, 'g) collab \<Rightarrow> config \<Rightarrow> 'b list \<Rightarrow> 'b list \<Rightarrow> nat \<Rightarrow> ('p, 'g) state \<Rightarrow> ('p, 'g) result" where
  "evaluate_model C cfg tdl vdl epoch st =
     (if evaluation_interval cfg = 0 then Inl (ZeroDivisionError, st)
      else if int epoch mod evaluation_interval cfg = 0 then
        and_then (evaluate_subsets C tdl vdl epoch [''training'', ''validation'']
                    (emit [Print (CHR 0x0A # ''---- Evaluating Model ----'')] st))
          (second_loops C tdl vdl epoch)
      else Inr st)"

subsection \<open>The epoch loop and the run (lines 148 and 193 to 341)\<close>

definition run_epoch ::
  "('b, 'p, 'g::comm_monoid_add) collab \<Rightarrow> hyperparams \<Rightarrow> config \<Rightarrow> 'b list \<Rightarrow> 'b list \<Rightarrow> nat
     \<Rightarrow> ('p, 'g) state \<Rightarrow> ('p, 'g) result" where
  "run_epoch C hp cfg tdl vdl epoch st =
     (let st1 = emit [Print (CHR 0x0A # ''---- Training Model ----''), ModelTrain] st;
          st2 = st1\<lparr>best_mAP := 0\<rparr>
      in and_then (train_loop C hp (verbose cfg) (length tdl) epoch (enumerate 0 tdl) st2)
           (\<lambda>st3. and_then (log_train_loss epoch st3)
              (\<lambda>st4. and_then (save_checkpoint cfg epoch st4)
                 (evaluate_model C cfg tdl vdl epoch))))"

fun run_epochs ::
  "('b, 'p, 'g::comm_monoid_add) collab \<Rightarrow> hyperparams \<Rightarrow> config \<Rightarrow> 'b list \<Rightarrow> 'b list \<Rightarrow> nat list
     \<Rightarrow> ('p, 'g) state \<Rightarrow> ('p, 'g) result" where
  "run_epochs C hp cfg tdl vdl [] st = Inr st"
| "run_epochs C hp cfg tdl vdl (epoch # rest) st =
     and_then (run_epoch C hp cfg tdl vdl epoch st) (run_epochs C hp cfg tdl vdl rest)"

text \<open>
  The state at line 148: the model as \<open>load_model\<close> returned it (its parameters and
  \<open>seen\<close> counter), no gradient yet, every local unbound, nothing emitted.
\<close>

definition initial_state :: "'p \<Rightarrow> int \<Rightarrow> ('p, 'g::comm_monoid_add) state" where
  "initial_state p0 seen0 =
     \<lparr>params = p0, grads = 0, seen = seen0, optimizer = None, best_mAP = 0,
      evaluation_metrics = None, loss = None, trace = []\<rparr>"

text \<open>
  \<open>mini_batch_size = batch // subdivisions\<close> (line 148) raises when \<open>subdivisions\<close> is
  0; the loaders built from it are the arguments \<open>tdl\<close> and \<open>vdl\<close>; \<open>range(epochs)\<close>
  is empty for a negative \<open>epochs\<close>.
\<close>

definition run ::
  "('b, 'p, 'g::comm_monoid_add) collab \<Rightarrow> hyperparams \<Rightarrow> config \<Rightarrow> 'b list \<Rightarrow> 'b list \<Rightarrow> 'p \<Rightarrow> int
     \<Rightarrow> ('p, 'g) result" where
  "run C hp cfg tdl vdl p0 seen0 =
     (if subdivisions hp = 0 then Inl (ZeroDivisionError, initial_state p0 seen0)
      else and_then (create_optimizer hp (initial_state p0 seen0))
             (run_epochs C hp cfg tdl vdl [0..<nat (epochs cfg)]))"

subsection \<open>Views of the trace used to state the properties\<close>

text \<open>The events one call of \<open>train_batch\<close> appends when it returns.\<close>

definition batch_events ::
  "('b, 'p, 'g) collab \<Rightarrow> hyperparams \<Rightarrow> bool \<Rightarrow> nat \<Rightarrow> 'b \<Rightarrow> ('p, 'g) state \<Rightarrow> event list" where
  "batch_events C hp verb bd b st =
     (case compute_loss C (params st) b of (l, c0, c1, c2, c3) \<Rightarrow>
        [Forward, ComputeLoss l, Backward] @
        (if int bd mod subdivisions hp = 0
         then ScalarSummary ''train/learning_rate'' (adapt_lr hp bd) bd #
              map (\<lambda>g. SetLR (adapt_lr hp bd)) (param_groups (the (optimizer st))) @
              [OptimizerStep, ZeroGrad]
         else []) @
        (if verb then [PrintTable c0 c1 c2 c3 l] else []) @
        [ListOfScalarsSummary
           [(''train/iou_loss'', c0), (''train/obj_loss'', c1),
            (''train/class_loss'', c2), (''train/loss'', l)] bd])"

text \<open>The optimizer's side of the trace: backward passes, rate writes, steps, resets.\<close>

definition is_optimizer_event :: "event \<Rightarrow> bool" where
  "is_optimizer_event ev =
     (case ev of Backward \<Rightarrow> True | SetLR lr \<Rightarrow> True | OptimizerStep \<Rightarrow> True
      | ZeroGrad \<Rightarrow> True | _ \<Rightarrow> False)"

text \<open>
  The batch counter, as the per-batch call \<open>logger.list_of_scalars_summary(tensorboard_log,
  batches_done)\<close> records it, and the rate with its counter, as
  \<open>logger.scalar_summary("train/learning_rate", lr, batches_done)\<close> records it.
\<close>

definition batches_done_logged :: "event \<Rightarrow> nat list" where
  "batches_done_logged ev =
     (case ev of
        ListOfScalarsSummary tags step \<Rightarrow>
          (if map fst tags = [''train/iou_loss'', ''train/obj_loss'', ''train/class_loss'',
                              ''train/loss'']
           then [step] else [])
      | _ \<Rightarrow> [])"

definition lr_logged :: "event \<Rightarrow> (real \<times> nat) list" where
  "lr_logged ev =
     (case ev of
        ScalarSummary tag v step \<Rightarrow> (if tag = ''train/learning_rate'' then [(v, step)] else [])
      | _ \<Rightarrow> [])"

text \<open>Writes of a checkpoint file other than the best one.\<close>

definition is_epoch_checkpoint :: "event \<Rightarrow> bool" where
  "is_epoch_checkpoint ev =
     (case ev of TorchSave path \<Rightarrow> path \<noteq> best_checkpoint_path | _ \<Rightarrow> False)"

text \<open>
  What a batch with counter \<open>bd\<close> contributes to the optimizer's side of the trace and
  to the logged rates, when the optimizer has one parameter group.
\<close>

definition optimizer_view :: "hyperparams \<Rightarrow> nat \<Rightarrow> event list" where
  "optimizer_view hp bd =
     Backward # (if int bd mod subdivisions hp = 0
                 then [SetLR (adapt_lr hp bd), OptimizerStep, ZeroGrad] else [])"

definition lr_view :: "hyperparams \<Rightarrow> nat \<Rightarrow> (real \<times> nat) list" where
  "lr_view hp bd = (if int bd mod subdivisions hp = 0 then [(adapt_lr hp bd, bd)] else [])"

text \<open>
  Writes of any checkpoint file; and a step of the body that leaves the model, the
  optimizer and \<open>best_mAP\<close> alone and adds to the trace nothing of the four views above.
\<close>

definition is_save :: "event \<Rightarrow> bool" where
  "is_save ev = (case ev of TorchSave path \<Rightarrow> True | _ \<Rightarrow> False)"

definition silent :: "event list \<Rightarrow> bool" where
  "silent evs \<longleftrightarrow>
     filter is_optimizer_event evs = [] \<and> concat (map batches_done_logged evs) = [] \<and>
     concat (map lr_logged evs) = [] \<and> filter is_epoch_checkpoint evs = []"

definition quiet_step :: "('p, 'g) state \<Rightarrow> ('p, 'g) state \<Rightarrow> bool" where
  "quiet_step st st' \<longleftrightarrow>
     params st' = params st \<and> grads st' = grads st \<and> seen st' = seen st \<and>
     optimizer st' = optimizer st \<and> best_mAP st' = best_mAP st \<and>
     take (length (trace st)) (trace st') = trace st \<and> silent (new_events st st')"

text \<open>The number a string of decimal digits denotes, to tell checkpoint names apart.\<close>

definition str_value :: "string \<Rightarrow> nat" where
  "str_value s = foldl (\<lambda>a c. 10 * a + (of_char c - 48)) 0 s"

text \<open>An optimizer as both constructors build it: one parameter group.\<close>

definition one_group :: "('p, 'g) state \<Rightarrow> bool" where
  "one_group st = (case optimizer st of None \<Rightarrow> True | Some opt \<Rightarrow> length (param_groups opt) = 1)"

subsection \<open>A small configuration used to instantiate the theorems\<close>

definition hp_ex :: hyperparams where
  "hp_ex = \<lparr>batch = 4, subdivisions = 2, optimizer_name = None, learning_rate = 1 / 1000,
     decay = 0, momentum = 9 / 10, burn_in = 4, lr_steps = [(6, 1 / 10), (8, 1 / 10)]\<rparr>"

text \<open>
  A schedule with negative multipliers, which the configuration parser accepts (the
  scales are parsed as floats without a range check) and a base rate that \<open>optim.Adam\<close>
  accepts. With two batches per step, the counters 20 and 22 are step boundaries.
\<close>

definition hp_neg :: hyperparams where
  "hp_neg = \<lparr>batch = 4, subdivisions = 2, optimizer_name = None, learning_rate = 1,
     decay = 0, momentum = 0, burn_in = 0, lr_steps = [(10, - 1), (20, - 1)]\<rparr>"

text \<open>
  A run small enough to evaluate. A batch is the number of its images; the loss of a
  batch is that number and its gradient adds it; the parameters count the optimizer
  steps taken. \<open>_evaluate\<close> returns metrics only for the parameters reached after
  one step (mean AP 1/4 on the two training batches, 1/2 on the validation batch) and
  \<open>None\<close> otherwise. Two epochs, a checkpoint every second epoch, an evaluation every
  epoch.
\<close>

definition C_ex :: "(nat, int, int) collab" where
  "C_ex = \<lparr>imgs_size = (\<lambda>b. b),
            compute_loss = (\<lambda>p b. (real b, 0, 0, 0, real b)),
            backward = (\<lambda>p b. int b),
            optimizer_step = (\<lambda>opt p g. p + 1),
            evaluate = (\<lambda>p bs. if p = 1
                          then Some ([1], [1], [if length bs = 2 then 1 / 4 else 1 / 2], [1], [0])
                          else None)\<rparr>"

definition cfg_ex :: config where
  "cfg_ex = \<lparr>epochs = 2, verbose = False, checkpoint_interval = 2, evaluation_interval = 1\<rparr>"

definition tdl_ex :: "nat list" where
  "tdl_ex = [2, 3]"

definition vdl_ex :: "nat list" where
  "vdl_ex = [5]"

section \<open>Basic facts\<close>

declare str_nat.simps [simp del]

lemma emit_simps [simp]:
  "trace (emit evs st) = trace st @ evs"
  "params (emit evs st) = params st"
  "grads (emit evs st) = grads st"
  "seen (emit evs st) = seen st"
  "optimizer (emit evs st) = optimizer st"
  "best_mAP (emit evs st) = best_mAP st"
  "evaluation_metrics (emit evs st) = evaluation_metrics st"
  "loss (emit evs st) = loss st"
  by (simp_all add: emit_def)

lemma and_then_simps [simp]:
  "and_then (Inl e) f = Inl e"
  "and_then (Inr st) f = f st"
  by (simp_all add: and_then_def)

lemma and_then_Inr:
  "and_then r f = Inr st' \<longleftrightarrow> (\<exists>st1. r = Inr st1 \<and> f st1 = Inr st')"
  by (cases r) auto

lemma new_events_append: "trace st' = trace st @ evs \<Longrightarrow> new_events st st' = evs"
  by (simp add: new_events_def)

lemma new_events_emit [simp]: "new_events st (emit evs st) = evs"
  by (simp add: new_events_def)

lemma result_state_simps [simp]:
  "result_state (Inl (e, st)) = st"
  "result_state (Inr st) = st"
  by (simp_all add: result_state_def)

lemma raised_simps [simp]:
  "raised (Inl (e, st)) = Some e"
  "raised (Inr st) = None"
  by (simp_all add: raised_def)

lemma silent_simps [simp]:
  "silent []"
  "silent (a @ b) \<longleftrightarrow> silent a \<and> silent b"
  by (auto simp: silent_def)

lemma silent_Cons:
  "silent (ev # evs) \<longleftrightarrow>
     \<not> is_optimizer_event ev \<and> batches_done_logged ev = [] \<and> lr_logged ev = [] \<and>
     \<not> is_epoch_checkpoint ev \<and> silent evs"
  by (auto simp: silent_def)

lemma is_save_epoch_checkpoint: "filter is_save evs = [] \<Longrightarrow> filter is_epoch_checkpoint evs = []"
  by (auto simp: filter_empty_conv is_save_def is_epoch_checkpoint_def split: event.splits)

lemma quiet_stepI:
  assumes "params st' = params st" "grads st' = grads st" "seen st' = seen st"
    "optimizer st' = optimizer st" "best_mAP st' = best_mAP st"
    "trace st' = trace st @ evs" "silent evs"
  shows "quiet_step st st'"
  using assms by (simp add: quiet_step_def new_events_def)

lemma quiet_stepD:
  assumes "quiet_step st st'"
  shows "params st' = params st" "grads st' = grads st" "seen st' = seen st"
    "optimizer st' = optimizer st" "best_mAP st' = best_mAP st"
    "trace st' = trace st @ new_events st st'" "silent (new_events st st')"
proof -
  have "trace st' = take (length (trace st)) (trace st') @ drop (length (trace st)) (trace st')"
    by simp
  also have "take (length (trace st)) (trace st') = trace st"
    using assms by (simp add: quiet_step_def)
  finally show "trace st' = trace st @ new_events st st'"
    unfolding new_events_def .
qed (use assms in \<open>simp_all add: quiet_step_def\<close>)

lemma quiet_step_refl [simp]: "quiet_step st st"
  by (rule quiet_stepI[where evs = "[]"]) simp_all

lemma quiet_step_trans:
  assumes "quiet_step st st1" "quiet_step st1 st2"
  shows "quiet_step st st2"
proof (rule quiet_stepI[where evs = "new_events st st1 @ new_events st1 st2"])
  have "trace st2 = trace st1 @ new_events st1 st2" by (rule quiet_stepD(6)[OF assms(2)])
  also have "trace st1 = trace st @ new_events st st1" by (rule quiet_stepD(6)[OF assms(1)])
  finally show "trace st2 = trace st @ new_events st st1 @ new_events st1 st2" by simp
  show "silent (new_events st st1 @ new_events st1 st2)"
    using quiet_stepD(7)[OF assms(1)] quiet_stepD(7)[OF assms(2)] by simp
  show "params st2 = params st"
    using quiet_stepD(1)[OF assms(1)] quiet_stepD(1)[OF assms(2)] by simp
  show "grads st2 = grads st"
    using quiet_stepD(2)[OF assms(1)] quiet_stepD(2)[OF assms(2)] by simp
  show "seen st2 = seen st"
    using quiet_stepD(3)[OF assms(1)] quiet_stepD(3)[OF assms(2)] by simp
  show "optimizer st2 = optimizer st"
    using quiet_stepD(4)[OF assms(1)] quiet_stepD(4)[OF assms(2)] by simp
  show "best_mAP st2 = best_mAP st"
    using quiet_stepD(5)[OF assms(1)] quiet_stepD(5)[OF assms(2)] by simp
qed

lemma quiet_step_emit:
  "silent evs \<Longrightarrow> quiet_step st (emit evs st)"
  by (rule quiet_stepI[where evs = evs]) simp_all

lemma quiet_step_and_then:
  assumes "quiet_step st (result_state r)"
    "\<And>st1. r = Inr st1 \<Longrightarrow> quiet_step st1 (result_state (f st1))"
  shows "quiet_step st (result_state (and_then r f))"
proof (cases r)
  case (Inl a)
  then show ?thesis using assms(1) by simp
next
  case (Inr st1)
  then show ?thesis using assms quiet_step_trans[of st st1 "result_state (f st1)"] by simp
qed


subsection \<open>One training batch\<close>

lemma train_batch_plain:
  assumes "subdivisions hp \<noteq> 0" "int (L * e + i) mod subdivisions hp \<noteq> 0"
  shows "train_batch C hp verb L e i b st =
    Inr (st\<lparr>loss := Some (fst (compute_loss C (params st) b)),
            grads := grads st + backward C (params st) b,
            trace := trace st @ batch_events C hp verb (L * e + i) b st,
            seen := seen st + int (imgs_size C b)\<rparr>)"
  using assms
  by (cases "compute_loss C (params st) b"; cases verb)
     (simp_all add: train_batch_def batch_events_def Let_def emit_def)

lemma train_batch_step:
  assumes "subdivisions hp \<noteq> 0" "int (L * e + i) mod subdivisions hp = 0"
    "optimizer st = Some opt"
  shows "train_batch C hp verb L e i b st =
    Inr (st\<lparr>loss := Some (fst (compute_loss C (params st) b)),
            optimizer := Some (opt\<lparr>param_groups :=
                                 map (\<lambda>g. adapt_lr hp (L * e + i)) (param_groups opt)\<rparr>),
            params := optimizer_step C
                        (opt\<lparr>param_groups :=
                                 map (\<lambda>g. adapt_lr hp (L * e + i)) (param_groups opt)\<rparr>)
                        (params st) (grads st + backward C (params st) b),
            grads := 0,
            trace := trace st @ batch_events C hp verb (L * e + i) b st,
            seen := seen st + int (imgs_size C b)\<rparr>)"
  using assms
  by (cases "compute_loss C (params st) b"; cases verb)
     (simp_all add: train_batch_def run_optimizer_def batch_events_def Let_def emit_def)

lemma train_batch_unbound:
  assumes "subdivisions hp \<noteq> 0" "int (L * e + i) mod subdivisions hp = 0"
    "optimizer st = None"
  shows "train_batch C hp verb L e i b st =
    Inl (UnboundLocalError ''optimizer'',
         st\<lparr>loss := Some (fst (compute_loss C (params st) b)),
            grads := grads st + backward C (params st) b,
            trace := trace st @
              [Forward, ComputeLoss (fst (compute_loss C (params st) b)), Backward,
               ScalarSummary ''train/learning_rate'' (adapt_lr hp (L * e + i)) (L * e + i)]\<rparr>)"
  using assms
  by (cases "compute_loss C (params st) b")
     (simp_all add: train_batch_def run_optimizer_def Let_def emit_def)

lemma train_batch_zero:
  assumes "subdivisions hp = 0"
  shows "\<exists>st'. train_batch C hp verb L e i b st = Inl (ZeroDivisionError, st')"
  using assms
  by (cases "compute_loss C (params st) b") (simp_all add: train_batch_def Let_def)

lemma train_batch_Inr:
  assumes "train_batch C hp verb L e i b st = Inr st'"
  shows "trace st' = trace st @ batch_events C hp verb (L * e + i) b st"
    and "seen st' = seen st + int (imgs_size C b)"
    and "best_mAP st' = best_mAP st"
    and "evaluation_metrics st' = evaluation_metrics st"
    and "loss st' = Some (fst (compute_loss C (params st) b))"
    and "subdivisions hp \<noteq> 0"
proof -
  have nz: "subdivisions hp \<noteq> 0"
    using assms train_batch_zero[of hp C verb L e i b st] by auto
  have "trace st' = trace st @ batch_events C hp verb (L * e + i) b st \<and>
    seen st' = seen st + int (imgs_size C b) \<and> best_mAP st' = best_mAP st \<and>
    evaluation_metrics st' = evaluation_metrics st \<and>
    loss st' = Some (fst (compute_loss C (params st) b))"
  proof (cases "int (L * e + i) mod subdivisions hp = 0")
    case False
    then show ?thesis using assms train_batch_plain[OF nz False, of C verb b st] by auto
  next
    case True
    show ?thesis
    proof (cases "optimizer st")
      case None
      then show ?thesis using assms train_batch_unbound[OF nz True None, of C verb b] by simp
    next
      case (Some opt)
      then show ?thesis using assms train_batch_step[OF nz True Some, of C verb b] by auto
    qed
  qed
  with nz show "trace st' = trace st @ batch_events C hp verb (L * e + i) b st"
    and "seen st' = seen st + int (imgs_size C b)"
    and "best_mAP st' = best_mAP st"
    and "evaluation_metrics st' = evaluation_metrics st"
    and "loss st' = Some (fst (compute_loss C (params st) b))"
    and "subdivisions hp \<noteq> 0" by auto
qed


subsection \<open>The batch loop\<close>

lemma batch_events_views:
  assumes "int bd mod subdivisions hp = 0 \<longrightarrow> (\<exists>opt. optimizer st = Some opt \<and> length (param_groups opt) = 1)"
  shows "filter is_optimizer_event (batch_events C hp verb bd b st) = optimizer_view hp bd"
    and "concat (map batches_done_logged (batch_events C hp verb bd b st)) = [bd]"
    and "concat (map lr_logged (batch_events C hp verb bd b st)) = lr_view hp bd"
    and "filter is_save (batch_events C hp verb bd b st) = []"
  using assms
  by (auto simp: batch_events_def optimizer_view_def lr_view_def is_optimizer_event_def
      batches_done_logged_def lr_logged_def is_save_def length_Suc_conv
      split: prod.splits)

lemma train_batch_one_group:
  assumes "train_batch C hp verb L e i b st = Inr st'" "one_group st"
  shows "one_group st'"
    and "int (L * e + i) mod subdivisions hp = 0 \<longrightarrow>
           (\<exists>opt. optimizer st = Some opt \<and> length (param_groups opt) = 1)"
proof -
  have nz: "subdivisions hp \<noteq> 0" using assms(1) by (rule train_batch_Inr(6))
  show "one_group st'"
  proof (cases "int (L * e + i) mod subdivisions hp = 0")
    case False
    then show ?thesis using assms train_batch_plain[OF nz False, of C verb b st]
      by (auto simp: one_group_def)
  next
    case True
    show ?thesis
    proof (cases "optimizer st")
      case None
      then show ?thesis using assms train_batch_unbound[OF nz True None, of C verb b] by simp
    next
      case (Some opt)
      then show ?thesis using assms train_batch_step[OF nz True Some, of C verb b]
        by (auto simp: one_group_def)
    qed
  qed
  show "int (L * e + i) mod subdivisions hp = 0 \<longrightarrow>
           (\<exists>opt. optimizer st = Some opt \<and> length (param_groups opt) = 1)"
  proof
    assume True: "int (L * e + i) mod subdivisions hp = 0"
    show "\<exists>opt. optimizer st = Some opt \<and> length (param_groups opt) = 1"
    proof (cases "optimizer st")
      case None
      then show ?thesis using assms train_batch_unbound[OF nz True None, of C verb b] by simp
    next
      case (Some opt)
      then show ?thesis using assms(2) by (simp add: one_group_def)
    qed
  qed
qed

lemma train_loop_Inr:
  assumes "train_loop C hp verb L e (enumerate k bs) st = Inr st'" "one_group st"
  shows "one_group st' \<and>
    seen st' = seen st + (\<Sum>b\<leftarrow>bs. int (imgs_size C b)) \<and>
    best_mAP st' = best_mAP st \<and> evaluation_metrics st' = evaluation_metrics st \<and>
    (bs \<noteq> [] \<longrightarrow> loss st' \<noteq> None) \<and> (bs = [] \<longrightarrow> st' = st) \<and>
    (\<exists>evs. trace st' = trace st @ evs \<and>
       filter is_optimizer_event evs =
         concat (map (optimizer_view hp) [L * e + k ..< L * e + k + length bs]) \<and>
       concat (map batches_done_logged evs) = [L * e + k ..< L * e + k + length bs] \<and>
       concat (map lr_logged evs) =
         concat (map (lr_view hp) [L * e + k ..< L * e + k + length bs]) \<and>
       filter is_save evs = [])"
  using assms
proof (induction bs arbitrary: k st)
  case Nil
  then show ?case by simp
next
  case (Cons b bs)
  from Cons.prems(1) obtain st1 where
    b: "train_batch C hp verb L e k b st = Inr st1" and
    rest: "train_loop C hp verb L e (enumerate (Suc k) bs) st1 = Inr st'"
    by (auto simp: and_then_Inr)
  note tb = train_batch_Inr[OF b] train_batch_one_group[OF b Cons.prems(2)]
  from Cons.IH[OF rest tb(7)] obtain evs where ih:
    "one_group st'" "seen st' = seen st1 + (\<Sum>b\<leftarrow>bs. int (imgs_size C b))"
    "best_mAP st' = best_mAP st1" "evaluation_metrics st' = evaluation_metrics st1"
    "bs \<noteq> [] \<longrightarrow> loss st' \<noteq> None" "bs = [] \<longrightarrow> st' = st1"
    "trace st' = trace st1 @ evs"
    "filter is_optimizer_event evs =
         concat (map (optimizer_view hp) [L * e + Suc k ..< L * e + Suc k + length bs])"
    "concat (map batches_done_logged evs) = [L * e + Suc k ..< L * e + Suc k + length bs]"
    "concat (map lr_logged evs) =
         concat (map (lr_view hp) [L * e + Suc k ..< L * e + Suc k + length bs])"
    "filter is_save evs = []"
    by blast
  note v = batch_events_views[OF tb(8), of C verb b]
  have upt: "[L * e + k ..< L * e + k + length (b # bs)] =
      (L * e + k) # [L * e + Suc k ..< L * e + Suc k + length bs]"
    by (subst upt_rec) simp
  have "trace st' = trace st @ (batch_events C hp verb (L * e + k) b st @ evs)"
    using ih(7) tb(1) by simp
  moreover have "loss st' \<noteq> None" using ih(5,6) tb(5) by (cases "bs = []") auto
  ultimately show ?case
    unfolding upt using ih v tb by (intro conjI) (auto simp: algebra_simps)
qed


subsection \<open>After the batch loop, and the evaluation\<close>

lemma log_train_loss_Inr:
  assumes "log_train_loss e st = Inr st'"
  shows "\<exists>l. loss st = Some l \<and> st' = emit [ExLogScalar ''train-loss'' l (e + 1)] st"
  using assms by (auto simp: log_train_loss_def split: option.splits)

lemma checkpoint_path_not_best [simp]: "checkpoint_path e \<noteq> best_checkpoint_path"
  by (simp add: checkpoint_path_def best_checkpoint_path_def)

lemma emit_Nil [simp]: "emit [] st = st"
  by (simp add: emit_def)

lemma save_checkpoint_Inr:
  assumes "save_checkpoint cfg e st = Inr st'"
  shows "checkpoint_interval cfg \<noteq> 0"
    and "st' = emit (if int e mod checkpoint_interval cfg = 0
                     then [Print (''---- Saving checkpoint to: '' @ quoted (checkpoint_path e)
                                   @ '' ----''),
                           TorchSave (checkpoint_path e)]
                     else []) st"
  using assms by (auto simp: save_checkpoint_def split: if_splits)

lemma silent_single [simp]:
  "silent [Print s]" "silent [PrintTable a b c d l]" "silent [ModelTrain]" "silent [Forward]"
  "silent [ComputeLoss l]" "silent [ExLogScalar n v k]" "silent [Evaluate w]"
  "silent [TorchSave best_checkpoint_path]"
  by (simp_all add: silent_def is_optimizer_event_def batches_done_logged_def lr_logged_def
      is_epoch_checkpoint_def)

lemma silent_metrics [simp]:
  "silent [ListOfScalarsSummary ((''precision'', v) # ms) k]"
  by (simp add: silent_def is_optimizer_event_def batches_done_logged_def lr_logged_def
      is_epoch_checkpoint_def)

lemma silent_cons_append: "silent (ev # evs) \<longleftrightarrow> silent [ev] \<and> silent evs"
  using silent_simps(2)[of "[ev]" evs] by simp

lemma evaluate_and_log_quiet: "quiet_step st (evaluate_and_log C tdl vdl e s st)"
proof -
  define mo where "mo = (if s = ''training'' then evaluate C (params st) tdl
                         else evaluate C (params st) vdl)"
  define hd where "hd = [Print (''Evaluate '' @ s @ '' set''),
              Evaluate (if s = ''training'' then TrainingLoader else ValidationLoader)]"
  have hd: "silent hd"
    unfolding hd_def by (subst silent_cons_append) simp
  have unf: "evaluate_and_log C tdl vdl e s st =
      (case mo of None \<Rightarrow> emit hd st
       | Some (p, r, ap, f, c) \<Rightarrow>
           emit (hd @ concat (map (\<lambda>metric.
                        [ExLogScalar (s @ ''.'' @ fst metric) (snd metric) (e + 1),
                         ListOfScalarsSummary [(''precision'', np_mean p), (''recall'', np_mean r),
                            (''mAP'', np_mean ap), (''f1'', np_mean f)] e])
                    [(''precision'', np_mean p), (''recall'', np_mean r),
                            (''mAP'', np_mean ap), (''f1'', np_mean f)]))
             (st\<lparr>evaluation_metrics := Some [(''precision'', np_mean p), (''recall'', np_mean r),
                            (''mAP'', np_mean ap), (''f1'', np_mean f)]\<rparr>))"
    unfolding evaluate_and_log_def mo_def hd_def Let_def emit_def
    by (simp split: option.splits prod.splits)
  show ?thesis
  proof (cases mo)
    case None
    then show ?thesis unfolding unf using hd by (simp add: quiet_step_emit)
  next
    case (Some x)
    obtain p r ap f c where x: "x = (p, r, ap, f, c)" by (cases x)
    let ?ms = "[(''precision'', np_mean p), (''recall'', np_mean r),
                (''mAP'', np_mean ap), (''f1'', np_mean f)]"
    let ?evs = "hd @ concat (map (\<lambda>metric.
                        [ExLogScalar (s @ ''.'' @ fst metric) (snd metric) (e + 1),
                         ListOfScalarsSummary ?ms e]) ?ms)"
    have "silent (concat (map (\<lambda>metric.
                        [ExLogScalar (s @ ''.'' @ fst metric) (snd metric) (e + 1),
                         ListOfScalarsSummary ?ms e]) ?ms))"
      by (simp add: silent_Cons is_optimizer_event_def batches_done_logged_def lr_logged_def
          is_epoch_checkpoint_def)
    then have sil: "silent ?evs"
      using hd silent_simps(2) by blast
    have "quiet_step st (st\<lparr>evaluation_metrics := Some ?ms\<rparr>)"
      by (rule quiet_stepI[where evs = "[]"]) simp_all
    then have "quiet_step st (emit ?evs (st\<lparr>evaluation_metrics := Some ?ms\<rparr>))"
      using quiet_step_emit[OF sil] quiet_step_trans by blast
    then show ?thesis
      unfolding unf Some x by simp
  qed
qed

lemma log_val_loss_quiet: "quiet_step st (result_state (log_val_loss e st))"
  by (auto simp: log_val_loss_def split: option.splits intro!: quiet_step_emit)

lemma save_best_quiet: "quiet_step st (result_state (save_best s st))"
proof -
  have "silent [Print (''---- Saving best checkpoint to: '' @ quoted best_checkpoint_path
                        @ '' ----''), TorchSave best_checkpoint_path]"
    by (subst silent_cons_append) simp
  then show ?thesis
    by (auto simp: save_best_def split: option.splits intro!: quiet_step_emit)
qed

lemma evaluate_subset_quiet: "quiet_step st (result_state (evaluate_subset C tdl vdl e s st))"
  unfolding evaluate_subset_def
  by (rule quiet_step_trans[OF evaluate_and_log_quiet save_best_quiet])

lemma evaluate_subsets_quiet:
  "quiet_step st (result_state (evaluate_subsets C tdl vdl e ss st))"
proof (induction ss arbitrary: st)
  case Nil
  then show ?case by simp
next
  case (Cons s ss)
  show ?case
    unfolding evaluate_subsets.simps
    by (rule quiet_step_and_then[OF evaluate_subset_quiet Cons.IH])
qed

lemma loss_loop_quiet: "quiet_step st (loss_loop C bs st)"
proof (induction bs arbitrary: st)
  case Nil
  then show ?case by simp
next
  case (Cons b bs)
  obtain l c0 c1 c2 c3 where cl: "compute_loss C (params st) b = (l, c0, c1, c2, c3)"
    by (cases "compute_loss C (params st) b")
  have "quiet_step st (emit [Forward, ComputeLoss l] (st\<lparr>loss := Some l\<rparr>))"
    by (rule quiet_stepI[where evs = "[Forward, ComputeLoss l]"])
       (simp_all add: silent_cons_append[of _ "_ # _"])
  then show ?case
    using Cons.IH[of "emit [Forward, ComputeLoss l] (st\<lparr>loss := Some l\<rparr>)"] cl
    by (auto intro: quiet_step_trans)
qed

lemma second_loops_quiet: "quiet_step st (result_state (second_loops C tdl vdl e st))"
  unfolding second_loops_def
  by (rule quiet_step_trans[OF quiet_step_trans[OF loss_loop_quiet loss_loop_quiet]
        log_val_loss_quiet])

lemma evaluate_model_quiet: "quiet_step st (result_state (evaluate_model C cfg tdl vdl e st))"
proof -
  let ?st0 = "emit [Print (CHR 0x0A # ''---- Evaluating Model ----'')] st"
  have q0: "quiet_step st ?st0"
    by (rule quiet_step_emit) simp
  have "quiet_step st (result_state
      (and_then (evaluate_subsets C tdl vdl e [''training'', ''validation''] ?st0)
         (second_loops C tdl vdl e)))"
    by (rule quiet_step_and_then[OF quiet_step_trans[OF q0 evaluate_subsets_quiet]
          second_loops_quiet])
  then show ?thesis by (simp add: evaluate_model_def)
qed


subsection \<open>One epoch and the whole run\<close>

lemma counters_concat: "concat (map (\<lambda>e. [L * e ..< L * e + L]) [0..<n]) = [0..<L * n]"
proof (induction n)
  case 0
  then show ?case by simp
next
  case (Suc n)
  have "[0..<L * Suc n] = [0..<L * n] @ [L * n ..< L * n + L]"
    using upt_add_eq_append[of 0 "L * n" L] by (simp add: add.commute)
  then show ?case using Suc by simp
qed

lemma concat_map_counters:
  "concat (map (\<lambda>e. concat (map f [L * e ..< L * e + L])) [0..<n]) = concat (map f [0..<L * n])"
proof -
  have "concat (map (\<lambda>e. concat (map f [L * e ..< L * e + L])) [0..<n]) =
      concat (map f (concat (map (\<lambda>e. [L * e ..< L * e + L]) [0..<n])))"
    by (induction n) simp_all
  then show ?thesis by (simp only: counters_concat)
qed

lemma quiet_step_views:
  assumes "quiet_step st st'"
  shows "\<exists>evs. trace st' = trace st @ evs \<and> silent evs"
  using quiet_stepD(6,7)[OF assms] by blast

lemma silentD:
  assumes "silent evs"
  shows "filter is_optimizer_event evs = []" "concat (map batches_done_logged evs) = []"
    "concat (map lr_logged evs) = []" "filter is_epoch_checkpoint evs = []"
  using assms by (simp_all add: silent_def)

lemma run_epoch_Inr:
  assumes "run_epoch C hp cfg tdl vdl e st = Inr st'" "one_group st"
  shows "one_group st' \<and>
    seen st' = seen st + (\<Sum>b\<leftarrow>tdl. int (imgs_size C b)) \<and>
    checkpoint_interval cfg \<noteq> 0 \<and>
    (\<exists>evs. trace st' = trace st @ evs \<and>
       filter is_optimizer_event evs =
         concat (map (optimizer_view hp) [length tdl * e ..< length tdl * e + length tdl]) \<and>
       concat (map batches_done_logged evs) = [length tdl * e ..< length tdl * e + length tdl] \<and>
       concat (map lr_logged evs) =
         concat (map (lr_view hp) [length tdl * e ..< length tdl * e + length tdl]) \<and>
       filter is_epoch_checkpoint evs =
         (if int e mod checkpoint_interval cfg = 0 then [TorchSave (checkpoint_path e)] else []))"
proof -
  let ?L = "length tdl"
  let ?st2 = "(emit [Print (CHR 0x0A # ''---- Training Model ----''), ModelTrain] st)\<lparr>best_mAP := 0\<rparr>"
  from assms(1) obtain st3 st4 st5 where
    tl: "train_loop C hp (verbose cfg) ?L e (enumerate 0 tdl) ?st2 = Inr st3" and
    lt: "log_train_loss e st3 = Inr st4" and
    sc: "save_checkpoint cfg e st4 = Inr st5" and
    ev: "evaluate_model C cfg tdl vdl e st5 = Inr st'"
    by (auto simp: run_epoch_def Let_def and_then_Inr)
  have og2: "one_group ?st2" using assms(2) by (simp add: one_group_def)
  from train_loop_Inr[OF tl og2] obtain evs3 where t3:
    "one_group st3" "seen st3 = seen st + (\<Sum>b\<leftarrow>tdl. int (imgs_size C b))"
    "trace st3 = trace ?st2 @ evs3"
    "filter is_optimizer_event evs3 = concat (map (optimizer_view hp) [?L * e ..< ?L * e + ?L])"
    "concat (map batches_done_logged evs3) = [?L * e ..< ?L * e + ?L]"
    "concat (map lr_logged evs3) = concat (map (lr_view hp) [?L * e ..< ?L * e + ?L])"
    "filter is_save evs3 = []"
    by auto
  have ck3: "filter is_epoch_checkpoint evs3 = []"
    using t3(7) by (rule is_save_epoch_checkpoint)
  from log_train_loss_Inr[OF lt] obtain l where
    st4: "st4 = emit [ExLogScalar ''train-loss'' l (e + 1)] st3" by blast
  note st5 = save_checkpoint_Inr[OF sc]
  define ck where "ck = (if int e mod checkpoint_interval cfg = 0
             then [Print (''---- Saving checkpoint to: '' @ quoted (checkpoint_path e) @ '' ----''),
                   TorchSave (checkpoint_path e)]
             else [])"
  have ck: "filter is_optimizer_event ck = []" "concat (map batches_done_logged ck) = []"
    "concat (map lr_logged ck) = []"
    "filter is_epoch_checkpoint ck =
      (if int e mod checkpoint_interval cfg = 0 then [TorchSave (checkpoint_path e)] else [])"
    unfolding ck_def
    by (cases "int e mod checkpoint_interval cfg = 0";
        simp add: is_optimizer_event_def batches_done_logged_def lr_logged_def
          is_epoch_checkpoint_def)+
  have st5': "st5 = emit ck st4" using st5(2) by (simp add: ck_def)
  have q: "quiet_step st5 st'"
    using evaluate_model_quiet[of st5 C cfg tdl vdl e] ev by simp
  from quiet_step_views[OF q] obtain evs6 where
    t6: "trace st' = trace st5 @ evs6" and s6: "silent evs6" by blast
  note qd = quiet_stepD[OF q]
  let ?evs = "[Print (CHR 0x0A # ''---- Training Model ----''), ModelTrain] @ evs3 @
              [ExLogScalar ''train-loss'' l (e + 1)] @ ck @ evs6"
  have tr: "trace st' = trace st @ ?evs"
    using t6 st5' st4 t3(3) by simp
  have og: "one_group st'"
    using t3(1) qd(4) st5' st4 by (simp add: one_group_def)
  have sn: "seen st' = seen st + (\<Sum>b\<leftarrow>tdl. int (imgs_size C b))"
    using t3(2) qd(3) st5' st4 by simp
  have v1: "filter is_optimizer_event ?evs =
      concat (map (optimizer_view hp) [?L * e ..< ?L * e + ?L])"
    using t3(4) silentD(1)[OF s6] ck(1) by (simp add: is_optimizer_event_def)
  have v2: "concat (map batches_done_logged ?evs) = [?L * e ..< ?L * e + ?L]"
    using t3(5) silentD(2)[OF s6] ck(2) by (simp add: batches_done_logged_def)
  have v3: "concat (map lr_logged ?evs) = concat (map (lr_view hp) [?L * e ..< ?L * e + ?L])"
    using t3(6) silentD(3)[OF s6] ck(3) by (simp add: lr_logged_def)
  have v4: "filter is_epoch_checkpoint ?evs =
      (if int e mod checkpoint_interval cfg = 0 then [TorchSave (checkpoint_path e)] else [])"
    using ck3 silentD(4)[OF s6] ck(4) by (simp add: is_epoch_checkpoint_def)
  show ?thesis
    using og sn st5(1) tr v1 v2 v3 v4 by blast
qed


lemma run_epochs_Inr:
  assumes "run_epochs C hp cfg tdl vdl [a..<a + n] st = Inr st'" "one_group st"
  shows "one_group st' \<and>
    seen st' = seen st + int n * (\<Sum>b\<leftarrow>tdl. int (imgs_size C b)) \<and>
    (0 < n \<longrightarrow> checkpoint_interval cfg \<noteq> 0) \<and>
    (\<exists>evs. trace st' = trace st @ evs \<and>
       filter is_optimizer_event evs =
         concat (map (optimizer_view hp) [length tdl * a ..< length tdl * (a + n)]) \<and>
       concat (map batches_done_logged evs) = [length tdl * a ..< length tdl * (a + n)] \<and>
       concat (map lr_logged evs) =
         concat (map (lr_view hp) [length tdl * a ..< length tdl * (a + n)]) \<and>
       filter is_epoch_checkpoint evs =
         map (\<lambda>e. TorchSave (checkpoint_path e))
           (filter (\<lambda>e. int e mod checkpoint_interval cfg = 0) [a..<a + n]))"
  using assms
proof (induction n arbitrary: a st)
  case 0
  then show ?case by simp
next
  case (Suc n)
  let ?L = "length tdl"
  have upt: "[a..<a + Suc n] = a # [Suc a..<Suc a + n]"
    by (subst upt_rec) simp
  from Suc.prems(1) obtain st1 where
    e: "run_epoch C hp cfg tdl vdl a st = Inr st1" and
    rest: "run_epochs C hp cfg tdl vdl [Suc a..<Suc a + n] st1 = Inr st'"
    unfolding upt by (auto simp: and_then_Inr)
  from run_epoch_Inr[OF e Suc.prems(2)] obtain evs1 where r1:
    "one_group st1" "seen st1 = seen st + (\<Sum>b\<leftarrow>tdl. int (imgs_size C b))"
    "checkpoint_interval cfg \<noteq> 0" "trace st1 = trace st @ evs1"
    "filter is_optimizer_event evs1 = concat (map (optimizer_view hp) [?L * a ..< ?L * a + ?L])"
    "concat (map batches_done_logged evs1) = [?L * a ..< ?L * a + ?L]"
    "concat (map lr_logged evs1) = concat (map (lr_view hp) [?L * a ..< ?L * a + ?L])"
    "filter is_epoch_checkpoint evs1 =
       (if int a mod checkpoint_interval cfg = 0 then [TorchSave (checkpoint_path a)] else [])"
    by blast
  from Suc.IH[OF rest r1(1)] obtain evs2 where r2:
    "one_group st'" "seen st' = seen st1 + int n * (\<Sum>b\<leftarrow>tdl. int (imgs_size C b))"
    "trace st' = trace st1 @ evs2"
    "filter is_optimizer_event evs2 =
       concat (map (optimizer_view hp) [?L * Suc a ..< ?L * (Suc a + n)])"
    "concat (map batches_done_logged evs2) = [?L * Suc a ..< ?L * (Suc a + n)]"
    "concat (map lr_logged evs2) = concat (map (lr_view hp) [?L * Suc a ..< ?L * (Suc a + n)])"
    "filter is_epoch_checkpoint evs2 =
       map (\<lambda>e. TorchSave (checkpoint_path e))
         (filter (\<lambda>e. int e mod checkpoint_interval cfg = 0) [Suc a..<Suc a + n])"
    by blast
  have le: "?L * a + ?L \<le> ?L * (a + Suc n)" by (simp add: algebra_simps)
  have split: "[?L * a ..< ?L * (a + Suc n)] =
      [?L * a ..< ?L * a + ?L] @ [?L * Suc a ..< ?L * (Suc a + n)]"
    using upt_add_eq_append[of "?L * a" "?L * a + ?L" "?L * n"]
    by (simp add: algebra_simps)
  have tr: "trace st' = trace st @ (evs1 @ evs2)" using r1(4) r2(3) by simp
  have sn: "seen st' = seen st + int (Suc n) * (\<Sum>b\<leftarrow>tdl. int (imgs_size C b))"
    using r1(2) r2(2) by (simp add: algebra_simps)
  have v1: "filter is_optimizer_event (evs1 @ evs2) =
      concat (map (optimizer_view hp) [?L * a ..< ?L * (a + Suc n)])"
    unfolding split using r1(5) r2(4) by simp
  have v2: "concat (map batches_done_logged (evs1 @ evs2)) = [?L * a ..< ?L * (a + Suc n)]"
    unfolding split using r1(6) r2(5) by simp
  have v3: "concat (map lr_logged (evs1 @ evs2)) =
      concat (map (lr_view hp) [?L * a ..< ?L * (a + Suc n)])"
    unfolding split using r1(7) r2(6) by simp
  have v4: "filter is_epoch_checkpoint (evs1 @ evs2) =
      map (\<lambda>e. TorchSave (checkpoint_path e))
        (filter (\<lambda>e. int e mod checkpoint_interval cfg = 0) [a..<a + Suc n])"
    unfolding upt using r1(8) r2(7) by simp
  show ?case
    using r2(1) sn r1(3) tr v1 v2 v3 v4 by blast
qed

lemma create_optimizer_Inr:
  assumes "create_optimizer hp (initial_state p0 seen0) = Inr st"
  shows "one_group st" "seen st = seen0" "params st = p0"
    "filter is_optimizer_event (trace st) = []" "concat (map batches_done_logged (trace st)) = []"
    "concat (map lr_logged (trace st)) = []" "filter is_epoch_checkpoint (trace st) = []"
  using assms
  by (auto simp: create_optimizer_def initial_state_def one_group_def emit_def
      is_optimizer_event_def batches_done_logged_def lr_logged_def is_epoch_checkpoint_def
      split: if_splits)

lemma run_Inr:
  assumes "run C hp cfg tdl vdl p0 seen0 = Inr st'"
  shows "seen st' = seen0 + int (nat (epochs cfg)) * (\<Sum>b\<leftarrow>tdl. int (imgs_size C b))"
    and "filter is_optimizer_event (trace st') =
         concat (map (optimizer_view hp) [0 ..< length tdl * nat (epochs cfg)])"
    and "concat (map batches_done_logged (trace st')) = [0 ..< length tdl * nat (epochs cfg)]"
    and "concat (map lr_logged (trace st')) =
         concat (map (lr_view hp) [0 ..< length tdl * nat (epochs cfg)])"
    and "filter is_epoch_checkpoint (trace st') =
         map (\<lambda>e. TorchSave (checkpoint_path e))
           (filter (\<lambda>e. int e mod checkpoint_interval cfg = 0) [0..<nat (epochs cfg)])"
    and "subdivisions hp \<noteq> 0"
    and "0 < epochs cfg \<longrightarrow> checkpoint_interval cfg \<noteq> 0"
proof -
  show nz: "subdivisions hp \<noteq> 0" using assms by (auto simp: run_def split: if_splits)
  from assms nz obtain st where
    co: "create_optimizer hp (initial_state p0 seen0) = Inr st" and
    re: "run_epochs C hp cfg tdl vdl [0..<0 + nat (epochs cfg)] st = Inr st'"
    by (auto simp: run_def and_then_Inr)
  note c = create_optimizer_Inr[OF co]
  from run_epochs_Inr[OF re c(1)] obtain evs where r:
    "seen st' = seen st + int (nat (epochs cfg)) * (\<Sum>b\<leftarrow>tdl. int (imgs_size C b))"
    "0 < nat (epochs cfg) \<longrightarrow> checkpoint_interval cfg \<noteq> 0"
    "trace st' = trace st @ evs"
    "filter is_optimizer_event evs =
       concat (map (optimizer_view hp) [length tdl * 0 ..< length tdl * (0 + nat (epochs cfg))])"
    "concat (map batches_done_logged evs) = [length tdl * 0 ..< length tdl * (0 + nat (epochs cfg))]"
    "concat (map lr_logged evs) =
       concat (map (lr_view hp) [length tdl * 0 ..< length tdl * (0 + nat (epochs cfg))])"
    "filter is_epoch_checkpoint evs =
       map (\<lambda>e. TorchSave (checkpoint_path e))
         (filter (\<lambda>e. int e mod checkpoint_interval cfg = 0) [0..<0 + nat (epochs cfg)])"
    by (elim conjE exE) simp
  show "seen st' = seen0 + int (nat (epochs cfg)) * (\<Sum>b\<leftarrow>tdl. int (imgs_size C b))"
    using r(1) c(2) by simp
  show "filter is_optimizer_event (trace st') =
         concat (map (optimizer_view hp) [0 ..< length tdl * nat (epochs cfg)])"
    using r(3,4) c(4) by simp
  show "concat (map batches_done_logged (trace st')) = [0 ..< length tdl * nat (epochs cfg)]"
    using r(3,5) c(5) by simp
  show "concat (map lr_logged (trace st')) =
         concat (map (lr_view hp) [0 ..< length tdl * nat (epochs cfg)])"
    using r(3,6) c(6) by simp
  show "filter is_epoch_checkpoint (trace st') =
         map (\<lambda>e. TorchSave (checkpoint_path e))
           (filter (\<lambda>e. int e mod checkpoint_interval cfg = 0) [0..<nat (epochs cfg)])"
    using r(3,7) c(7) by simp
  show "0 < epochs cfg \<longrightarrow> checkpoint_interval cfg \<noteq> 0"
    using r(2) by simp
qed


lemma Inr_result_state: "raised r = None \<Longrightarrow> r = Inr (result_state r)"
  by (cases r) (auto simp: raised_def result_state_def)

lemma run_ex_returns: "raised (run C_ex hp_ex cfg_ex tdl_ex vdl_ex 0 0) = None"
  by code_simp

lemma str_value_str_nat: "str_value (str_nat n) = n"
proof (induction n rule: str_nat.induct)
  case (1 n)
  show ?case
  proof (cases "n < 10")
    case True
    then show ?thesis by (subst str_nat.simps) (simp add: str_value_def)
  next
    case False
    have "str_value (str_nat n) = 10 * str_value (str_nat (n div 10)) + n mod 10"
      using False by (subst str_nat.simps) (simp add: str_value_def)
    then show ?thesis using 1[OF False] by simp
  qed
qed

lemma checkpoint_path_inj: "checkpoint_path e = checkpoint_path e' \<longleftrightarrow> e = e'"
proof
  assume "checkpoint_path e = checkpoint_path e'"
  then have "str_nat e = str_nat e'" by (simp add: checkpoint_path_def)
  then have "str_value (str_nat e) = str_value (str_nat e')" by simp
  then show "e = e'" by (simp only: str_value_str_nat)
qed simp

lemma epoch_checkpoint_mem:
  "TorchSave (checkpoint_path e) \<in> set evs \<longleftrightarrow>
     TorchSave (checkpoint_path e) \<in> set (filter is_epoch_checkpoint evs)"
  by (simp add: is_epoch_checkpoint_def)

lemma train_loop_seen:
  assumes "train_loop C hp verb L e ibs st = Inr st'"
  shows "seen st' = seen st + (\<Sum>(i, b)\<leftarrow>ibs. int (imgs_size C b))"
  using assms
proof (induction ibs arbitrary: st)
  case Nil
  then show ?case by simp
next
  case (Cons ib ibs)
  obtain i b where ib: "ib = (i, b)" by (cases ib)
  from Cons.prems obtain st1 where
    b: "train_batch C hp verb L e i b st = Inr st1" and
    rest: "train_loop C hp verb L e ibs st1 = Inr st'"
    by (auto simp: ib and_then_Inr)
  show ?case using Cons.IH[OF rest] train_batch_Inr(2)[OF b] by (simp add: ib)
qed

section \<open>The learning-rate schedule\<close>

lemma lr_steps_loop_prod:
  "lr_steps_loop bd steps lr = lr * prod_list (map snd (filter (\<lambda>(t, m). int bd > t) steps))"
  by (induction steps arbitrary: lr) (auto simp: mult.assoc)

text \<open>
  With a non-negative rate and multipliers between 0 and 1, a later counter never
  yields a larger rate: it exceeds every threshold the earlier one does.
\<close>

lemma lr_steps_loop_mono:
  assumes "\<forall>(t, m) \<in> set steps. 0 \<le> m \<and> m \<le> 1" "0 \<le> a'" "a' \<le> a" "bd \<le> bd'"
  shows "0 \<le> lr_steps_loop bd' steps a' \<and> lr_steps_loop bd' steps a' \<le> lr_steps_loop bd steps a"
  using assms
proof (induction steps arbitrary: a a')
  case Nil
  then show ?case by simp
next
  case (Cons s steps)
  obtain t m where s: "s = (t, m)" by (cases s)
  from Cons.prems s have m: "0 \<le> m" "m \<le> 1" by auto
  let ?a = "if int bd > t then a * m else a"
  let ?a' = "if int bd' > t then a' * m else a'"
  have "a' * m \<le> a * m" using Cons.prems m by (simp add: mult_right_mono)
  moreover have "a' * m \<le> a'" using Cons.prems m by (simp add: mult_left_le)
  moreover have "0 \<le> a' * m" using Cons.prems m by simp
  ultimately have "0 \<le> ?a'" "?a' \<le> ?a" using Cons.prems by auto
  moreover have "\<forall>(t, m) \<in> set steps. 0 \<le> m \<and> m \<le> 1" using Cons.prems by auto
  ultimately have "0 \<le> lr_steps_loop bd' steps ?a' \<and>
      lr_steps_loop bd' steps ?a' \<le> lr_steps_loop bd steps ?a"
    using Cons.IH[of ?a' ?a] Cons.prems(4) by blast
  then show ?case by (simp add: s)
qed

text \<open>
  The optimizer constructors accept no negative rate: when line 188 is passed with an
  optimizer bound, the base rate is non-negative.
\<close>

lemma create_optimizer_bound:
  assumes "optimizer (result_state (create_optimizer hp (initial_state p0 seen0))) \<noteq> None"
  shows "0 \<le> learning_rate hp"
  using assms
  by (auto simp: create_optimizer_def initial_state_def emit_def split: if_splits)

text \<open>
  C2, as amended. For every batch counter, the rate of lines 218 to 226 is the base rate
  times \<open>batches_done / burn_in\<close> below the burn-in, and otherwise the base rate times the
  product of the multipliers of all schedule entries whose threshold the counter
  exceeds. Past the burn-in the rate is non-increasing in the counter when every
  multiplier lies between 0 and 1 and the base rate is non-negative, as it is in
  every run in which line 176 or 181 constructed the optimizer.
\<close>

theorem lr_schedule:
  "(int bd < burn_in hp \<longrightarrow>
      adapt_lr hp bd = learning_rate hp * (real bd / real_of_int (burn_in hp))) \<and>
   (\<not> int bd < burn_in hp \<longrightarrow>
      adapt_lr hp bd =
        learning_rate hp * prod_list (map snd (filter (\<lambda>(t, m). int bd > t) (lr_steps hp)))) \<and>
   (0 \<le> learning_rate hp \<or>
      optimizer (result_state (create_optimizer hp (initial_state p0 seen0))) \<noteq> None \<longrightarrow>
    (\<forall>(t, m) \<in> set (lr_steps hp). 0 \<le> m \<and> m \<le> 1) \<longrightarrow>
      burn_in hp \<le> int bd \<longrightarrow> bd \<le> bd' \<longrightarrow> adapt_lr hp bd' \<le> adapt_lr hp bd)"
proof (intro conjI impI)
  assume "int bd < burn_in hp"
  then show "adapt_lr hp bd = learning_rate hp * (real bd / real_of_int (burn_in hp))"
    by (simp add: adapt_lr_def)
next
  assume "\<not> int bd < burn_in hp"
  then show "adapt_lr hp bd =
        learning_rate hp * prod_list (map snd (filter (\<lambda>(t, m). int bd > t) (lr_steps hp)))"
    by (simp add: adapt_lr_def lr_steps_loop_prod)
next
  assume b: "0 \<le> learning_rate hp \<or>
      optimizer (result_state (create_optimizer hp (initial_state p0 seen0))) \<noteq> None"
    and h: "\<forall>(t, m) \<in> set (lr_steps hp). 0 \<le> m \<and> m \<le> 1"
    "burn_in hp \<le> int bd" "bd \<le> bd'"
  from b have nn: "0 \<le> learning_rate hp"
    using create_optimizer_bound[of hp p0 seen0] by blast
  from h have "\<not> int bd < burn_in hp" "\<not> int bd' < burn_in hp" by auto
  then show "adapt_lr hp bd' \<le> adapt_lr hp bd"
    using lr_steps_loop_mono[OF h(1) nn order_refl h(3)] by (simp add: adapt_lr_def)
qed

theorem lr_schedule_witness:
  "adapt_lr hp_ex 2 = 1 / 2000 \<and> adapt_lr hp_ex 7 = 1 / 10000 \<and>
   adapt_lr hp_ex 9 \<le> adapt_lr hp_ex 7"
  using lr_schedule[where bd = 2 and hp = hp_ex and bd' = 2]
    lr_schedule[where bd = 7 and hp = hp_ex and bd' = 9]
  by (simp add: hp_ex_def)

text \<open>
  Multipliers that are at most 1 do not suffice. The hyperparameters \<open>hp_neg\<close> pass
  the constructor of line 176; their schedule is \<open>[(10, -1), (20, -1)]\<close> with base rate
  1. At the step boundary 20 only the first threshold is exceeded and the rate logged
  and applied is -1; at the next boundary, 22, both are exceeded and the rate is 1.
\<close>

theorem lr_not_monotone_counterexample:
  "list_all (\<lambda>(t, m). m \<le> 1) (lr_steps hp_neg) \<and>
   raised (create_optimizer hp_neg (initial_state (0 :: int) 0 :: (int, int) state)) = None \<and>
   lr_view hp_neg 20 = [(- 1, 20)] \<and> lr_view hp_neg 22 = [(1, 22)] \<and>
   adapt_lr hp_neg 20 < adapt_lr hp_neg 22"
  by (simp add: hp_neg_def lr_view_def adapt_lr_def create_optimizer_def)

section \<open>The image counter\<close>

text \<open>
  C7. When the batch loop has processed a list of batches and returned, \<open>model.seen\<close> has
  grown by exactly the sum of their image counts, for every value of \<open>subdivisions\<close>
  and every batch index, that is whether or not any of the batches fell on a step
  boundary; and a run that returns has added the image counts of the training loader
  once per epoch.
\<close>

theorem seen_counts_images:
  "(train_loop C hp verb L e ibs st = Inr st' \<longrightarrow>
      seen st' = seen st + (\<Sum>(i, b)\<leftarrow>ibs. int (imgs_size C b))) \<and>
   (run C hp cfg tdl vdl p0 seen0 = Inr st'' \<longrightarrow>
      seen st'' = seen0 + int (nat (epochs cfg)) * (\<Sum>b\<leftarrow>tdl. int (imgs_size C b)))"
  using train_loop_seen[of C hp verb L e ibs st st'] run_Inr(1)[of C hp cfg tdl vdl p0 seen0 st'']
  by blast

theorem seen_counts_images_witness:
  "seen (result_state (run C_ex hp_ex cfg_ex tdl_ex vdl_ex 0 0)) = 10"
proof -
  have r: "run C_ex hp_ex cfg_ex tdl_ex vdl_ex 0 0
      = Inr (result_state (run C_ex hp_ex cfg_ex tdl_ex vdl_ex 0 0))"
    by (rule Inr_result_state[OF run_ex_returns])
  have "0 + int (nat (epochs cfg_ex)) * (\<Sum>b\<leftarrow>tdl_ex. int (imgs_size C_ex b)) = 10"
    by (simp add: C_ex_def cfg_ex_def tdl_ex_def)
  then show ?thesis
    using seen_counts_images[THEN conjunct2, THEN mp, OF r] by simp
qed


section \<open>The batch counter and the rate logged with it\<close>



section \<open>Epoch checkpoints\<close>

text \<open>
  C6. In a run that returns, the file \<open>checkpoints/yolov3_ckpt_<e>.pth\<close> is written if
  and only if \<open>e\<close> is an epoch of the run and \<open>e % checkpoint_interval == 0\<close>; in
  particular, with a positive interval and at least one epoch, the checkpoint of epoch
  0 is written.
\<close>

theorem epoch_checkpoint_iff:
  assumes "run C hp cfg tdl vdl p0 seen0 = Inr st'"
  shows "(\<forall>e. TorchSave (checkpoint_path e) \<in> set (trace st') \<longleftrightarrow>
            e < nat (epochs cfg) \<and> int e mod checkpoint_interval cfg = 0) \<and>
         (0 < checkpoint_interval cfg \<longrightarrow> 0 < epochs cfg \<longrightarrow>
            TorchSave (checkpoint_path 0) \<in> set (trace st'))"
proof -
  have iff: "TorchSave (checkpoint_path e) \<in> set (trace st') \<longleftrightarrow>
            e < nat (epochs cfg) \<and> int e mod checkpoint_interval cfg = 0" for e
  proof -
    have "TorchSave (checkpoint_path e) \<in> set (trace st') \<longleftrightarrow>
        TorchSave (checkpoint_path e) \<in> set (map (\<lambda>e. TorchSave (checkpoint_path e))
           (filter (\<lambda>e. int e mod checkpoint_interval cfg = 0) [0..<nat (epochs cfg)]))"
      by (subst epoch_checkpoint_mem) (simp only: run_Inr(5)[OF assms])
    also have "\<dots> \<longleftrightarrow> e < nat (epochs cfg) \<and> int e mod checkpoint_interval cfg = 0"
      by (auto simp: checkpoint_path_inj)
    finally show ?thesis .
  qed
  then show ?thesis by simp
qed

theorem epoch_checkpoint_iff_witness:
  "TorchSave (checkpoint_path 0) \<in> set (trace (result_state (run C_ex hp_ex cfg_ex tdl_ex vdl_ex 0 0))) \<and>
   TorchSave (checkpoint_path 1) \<notin> set (trace (result_state (run C_ex hp_ex cfg_ex tdl_ex vdl_ex 0 0)))"
proof -
  have r: "run C_ex hp_ex cfg_ex tdl_ex vdl_ex 0 0
      = Inr (result_state (run C_ex hp_ex cfg_ex tdl_ex vdl_ex 0 0))"
    by (rule Inr_result_state[OF run_ex_returns])
  show ?thesis
    using epoch_checkpoint_iff[OF r] by (simp add: cfg_ex_def)
qed


section \<open>Optimizer steps and gradient accumulation\<close>

text \<open>
  C4. Over a run that returns, the optimizer's side of the trace is, batch counter
  by batch counter, one backward pass followed, exactly at the counters with
  \<open>batches_done % subdivisions == 0\<close>, by the write of the computed rate, the optimizer
  step and the gradient reset, in this order. A batch that returns off such a counter
  leaves the parameters and the optimizer alone and adds its gradient to the
  accumulated one; a batch on such a counter writes the computed rate into every
  parameter group, steps the optimizer on the accumulated gradient with these groups
  and resets the gradient.
\<close>

theorem optimizer_cadence:
  "(run C hp cfg tdl vdl p0 seen0 = Inr st'' \<longrightarrow>
      filter is_optimizer_event (trace st'') =
        concat (map (optimizer_view hp) [0 ..< length tdl * nat (epochs cfg)])) \<and>
   (train_batch C hp verb L e i b st = Inr st' \<longrightarrow>
      trace st' = trace st @ batch_events C hp verb (L * e + i) b st \<and>
      (int (L * e + i) mod subdivisions hp \<noteq> 0 \<longrightarrow>
         params st' = params st \<and> optimizer st' = optimizer st \<and>
         grads st' = grads st + backward C (params st) b) \<and>
      (int (L * e + i) mod subdivisions hp = 0 \<longrightarrow>
         (\<exists>opt. optimizer st = Some opt \<and>
            optimizer st' = Some (opt\<lparr>param_groups :=
                               map (\<lambda>g. adapt_lr hp (L * e + i)) (param_groups opt)\<rparr>) \<and>
            params st' = optimizer_step C
                           (opt\<lparr>param_groups :=
                               map (\<lambda>g. adapt_lr hp (L * e + i)) (param_groups opt)\<rparr>)
                           (params st) (grads st + backward C (params st) b) \<and>
            grads st' = 0)))"
proof (intro conjI impI)
  assume "run C hp cfg tdl vdl p0 seen0 = Inr st''"
  then show "filter is_optimizer_event (trace st'') =
        concat (map (optimizer_view hp) [0 ..< length tdl * nat (epochs cfg)])"
    by (rule run_Inr(2))
next
  assume "train_batch C hp verb L e i b st = Inr st'"
  then show "trace st' = trace st @ batch_events C hp verb (L * e + i) b st"
    by (rule train_batch_Inr(1))
next
  assume b: "train_batch C hp verb L e i b st = Inr st'"
    and nb: "int (L * e + i) mod subdivisions hp \<noteq> 0"
  have nz: "subdivisions hp \<noteq> 0" using b by (rule train_batch_Inr(6))
  from b train_batch_plain[OF nz nb, of C verb b st]
  have st': "st' = st\<lparr>loss := Some (fst (compute_loss C (params st) b)),
            grads := grads st + backward C (params st) b,
            trace := trace st @ batch_events C hp verb (L * e + i) b st,
            seen := seen st + int (imgs_size C b)\<rparr>" by simp
  show "params st' = params st" by (subst st') simp
  show "optimizer st' = optimizer st" by (subst st') simp
  show "grads st' = grads st + backward C (params st) b" by (subst st') simp
next
  assume b: "train_batch C hp verb L e i b st = Inr st'"
    and bd: "int (L * e + i) mod subdivisions hp = 0"
  have nz: "subdivisions hp \<noteq> 0" using b by (rule train_batch_Inr(6))
  show "\<exists>opt. optimizer st = Some opt \<and>
            optimizer st' = Some (opt\<lparr>param_groups :=
                               map (\<lambda>g. adapt_lr hp (L * e + i)) (param_groups opt)\<rparr>) \<and>
            params st' = optimizer_step C
                           (opt\<lparr>param_groups :=
                               map (\<lambda>g. adapt_lr hp (L * e + i)) (param_groups opt)\<rparr>)
                           (params st) (grads st + backward C (params st) b) \<and>
            grads st' = 0"
  proof (cases "optimizer st")
    case None
    then show ?thesis using b train_batch_unbound[OF nz bd None, of C verb b] by simp
  next
    case (Some opt)
    from b train_batch_step[OF nz bd Some, of C verb b]
    have st': "st' = st\<lparr>loss := Some (fst (compute_loss C (params st) b)),
            optimizer := Some (opt\<lparr>param_groups :=
                                 map (\<lambda>g. adapt_lr hp (L * e + i)) (param_groups opt)\<rparr>),
            params := optimizer_step C
                        (opt\<lparr>param_groups :=
                                 map (\<lambda>g. adapt_lr hp (L * e + i)) (param_groups opt)\<rparr>)
                        (params st) (grads st + backward C (params st) b),
            grads := 0,
            trace := trace st @ batch_events C hp verb (L * e + i) b st,
            seen := seen st + int (imgs_size C b)\<rparr>" by simp
    show ?thesis using Some by (subst (1 2 3) st') simp
  qed
qed

theorem optimizer_cadence_witness:
  "filter is_optimizer_event (trace (result_state (run C_ex hp_ex cfg_ex tdl_ex vdl_ex 0 0))) =
     [Backward, SetLR 0, OptimizerStep, ZeroGrad, Backward,
      Backward, SetLR (1 / 2000), OptimizerStep, ZeroGrad, Backward] \<and>
   params (result_state (train_batch C_ex hp_ex False 2 0 1 3
             (result_state (create_optimizer hp_ex (initial_state 7 0))))) = 7 \<and>
   grads (result_state (train_batch C_ex hp_ex False 2 0 1 3
             (result_state (create_optimizer hp_ex (initial_state 7 0))))) = 3 \<and>
   params (result_state (train_batch C_ex hp_ex False 2 1 0 2
             (result_state (create_optimizer hp_ex (initial_state 7 0))))) = 8 \<and>
   grads (result_state (train_batch C_ex hp_ex False 2 1 0 2
             (result_state (create_optimizer hp_ex (initial_state 7 0))))) = 0"
proof -
  let ?st = "result_state (create_optimizer hp_ex (initial_state 7 0)) :: (int, int) state"
  have r: "run C_ex hp_ex cfg_ex tdl_ex vdl_ex 0 0
      = Inr (result_state (run C_ex hp_ex cfg_ex tdl_ex vdl_ex 0 0))"
    by (rule Inr_result_state[OF run_ex_returns])
  have a: "concat (map (optimizer_view hp_ex) [0 ..< length tdl_ex * nat (epochs cfg_ex)]) =
     [Backward, SetLR 0, OptimizerStep, ZeroGrad, Backward,
      Backward, SetLR (1 / 2000), OptimizerStep, ZeroGrad, Backward]"
    by code_simp
  have t1: "train_batch C_ex hp_ex False 2 0 1 3 ?st
      = Inr (result_state (train_batch C_ex hp_ex False 2 0 1 3 ?st))"
    by (rule Inr_result_state) code_simp
  have t2: "train_batch C_ex hp_ex False 2 1 0 2 ?st
      = Inr (result_state (train_batch C_ex hp_ex False 2 1 0 2 ?st))"
    by (rule Inr_result_state) code_simp
  have st: "params ?st = 7" "grads ?st = 0"
    by (simp_all add: create_optimizer_def hp_ex_def initial_state_def)
  have sub: "subdivisions hp_ex = 2" by (simp add: hp_ex_def)
  have c: "\<And>opt p g. optimizer_step C_ex opt p g = p + 1" "\<And>p b. backward C_ex p b = int b"
    by (simp_all add: C_ex_def)
  have 1: "filter is_optimizer_event (trace (result_state (run C_ex hp_ex cfg_ex tdl_ex vdl_ex 0 0))) =
     [Backward, SetLR 0, OptimizerStep, ZeroGrad, Backward,
      Backward, SetLR (1 / 2000), OptimizerStep, ZeroGrad, Backward]"
    using optimizer_cadence[THEN conjunct1, THEN mp, OF r] by (simp only: a)
  have 2: "params (result_state (train_batch C_ex hp_ex False 2 0 1 3 ?st)) = 7 \<and>
     grads (result_state (train_batch C_ex hp_ex False 2 0 1 3 ?st)) = 3"
    using optimizer_cadence[THEN conjunct2, THEN mp, OF t1] by (simp add: sub st c)
  have 3: "params (result_state (train_batch C_ex hp_ex False 2 1 0 2 ?st)) = 8 \<and>
     grads (result_state (train_batch C_ex hp_ex False 2 1 0 2 ?st)) = 0"
    using optimizer_cadence[THEN conjunct2, THEN mp, OF t2] by (auto simp: sub st c)
  from 1 2 3 show ?thesis by blast
qed


section \<open>An unknown optimizer name\<close>

text \<open>
  C5. When the \<open>optimizer\<close> hyperparameter is a string other than \<open>adam\<close> and
  \<open>sgd\<close>, the optimizer selection raises nothing: it prints one line and leaves
  \<open>optimizer\<close> unbound. The run then enters the epoch loop, and with a non-empty
  training loader it fails only inside the first batch, after the forward pass, the
  loss and the backward pass, with \<open>UnboundLocalError\<close> at the first read of
  \<open>optimizer\<close>.
\<close>

theorem unknown_optimizer_proceeds:
  fixes C :: "('b, 'p, 'g::comm_monoid_add) collab"
  assumes "optimizer_name hp = Some name" "name \<noteq> ''adam''" "name \<noteq> ''sgd''"
  shows "create_optimizer hp st =
           Inr (emit [Print ''Unknown optimizer. Please choose between (adam, sgd).''] st) \<and>
         (subdivisions hp \<noteq> 0 \<longrightarrow> 0 < epochs cfg \<longrightarrow>
            run C hp cfg (b # bs) vdl p0 seen0 =
              Inl (UnboundLocalError ''optimizer'',
                   (initial_state p0 seen0)
                     \<lparr>loss := Some (fst (compute_loss C p0 b)),
                      grads := backward C p0 b,
                      trace := [Print ''Unknown optimizer. Please choose between (adam, sgd).'',
                                Print (CHR 0x0A # ''---- Training Model ----''), ModelTrain,
                                Forward, ComputeLoss (fst (compute_loss C p0 b)), Backward,
                                ScalarSummary ''train/learning_rate'' (adapt_lr hp 0) 0]\<rparr>))"
proof (intro conjI impI)
  show "create_optimizer hp st =
           Inr (emit [Print ''Unknown optimizer. Please choose between (adam, sgd).''] st)"
    using assms by (simp add: create_optimizer_def)
next
  have co: "create_optimizer hp (initial_state p0 seen0 :: ('p, 'g) state) =
      Inr (emit [Print ''Unknown optimizer. Please choose between (adam, sgd).'']
             (initial_state p0 seen0))"
    using assms by (simp add: create_optimizer_def)
  assume nz: "subdivisions hp \<noteq> 0" and ep: "0 < epochs cfg"
  have upt: "[0..<nat (epochs cfg)] = 0 # [1..<nat (epochs cfg)]"
    using ep by (subst upt_rec) simp
  let ?st2 = "(emit [Print (CHR 0x0A # ''---- Training Model ----''), ModelTrain]
                (emit [Print ''Unknown optimizer. Please choose between (adam, sgd).'']
                   (initial_state p0 seen0 :: ('p, 'g) state)))\<lparr>best_mAP := 0\<rparr>"
  have z: "int (length (b # bs) * 0 + 0) mod subdivisions hp = 0" by simp
  have un: "optimizer ?st2 = None" by (simp add: initial_state_def)
  let ?st3 = "?st2\<lparr>loss := Some (fst (compute_loss C (params ?st2) b)),
            grads := grads ?st2 + backward C (params ?st2) b,
            trace := trace ?st2 @
              [Forward, ComputeLoss (fst (compute_loss C (params ?st2) b)), Backward,
               ScalarSummary ''train/learning_rate'' (adapt_lr hp (length (b # bs) * 0 + 0))
                 (length (b # bs) * 0 + 0)]\<rparr>"
  have tb: "train_batch C hp (verbose cfg) (length (b # bs)) 0 0 b ?st2 =
      Inl (UnboundLocalError ''optimizer'', ?st3)"
    by (rule train_batch_unbound[OF nz z un])
  have tl: "train_loop C hp (verbose cfg) (length (b # bs)) 0 (enumerate 0 (b # bs)) ?st2 =
      Inl (UnboundLocalError ''optimizer'', ?st3)"
    by (simp only: enumerate_simps train_loop.simps tb and_then_simps)
  have re: "run_epoch C hp cfg (b # bs) vdl 0
      (emit [Print ''Unknown optimizer. Please choose between (adam, sgd).'']
         (initial_state p0 seen0 :: ('p, 'g) state)) =
      Inl (UnboundLocalError ''optimizer'', ?st3)"
    by (simp only: run_epoch_def Let_def tl and_then_simps)
  have "run C hp cfg (b # bs) vdl p0 seen0 = Inl (UnboundLocalError ''optimizer'', ?st3)"
    using nz by (simp only: run_def co upt run_epochs.simps re and_then_simps if_False)
  also have "?st3 = (initial_state p0 seen0)
                     \<lparr>loss := Some (fst (compute_loss C p0 b)),
                      grads := backward C p0 b,
                      trace := [Print ''Unknown optimizer. Please choose between (adam, sgd).'',
                                Print (CHR 0x0A # ''---- Training Model ----''), ModelTrain,
                                Forward, ComputeLoss (fst (compute_loss C p0 b)), Backward,
                                ScalarSummary ''train/learning_rate'' (adapt_lr hp 0) 0]\<rparr>"
    by (simp add: initial_state_def emit_def)
  finally show "run C hp cfg (b # bs) vdl p0 seen0 =
              Inl (UnboundLocalError ''optimizer'',
                   (initial_state p0 seen0)
                     \<lparr>loss := Some (fst (compute_loss C p0 b)),
                      grads := backward C p0 b,
                      trace := [Print ''Unknown optimizer. Please choose between (adam, sgd).'',
                                Print (CHR 0x0A # ''---- Training Model ----''), ModelTrain,
                                Forward, ComputeLoss (fst (compute_loss C p0 b)), Backward,
                                ScalarSummary ''train/learning_rate'' (adapt_lr hp 0) 0]\<rparr>)" .
qed

theorem unknown_optimizer_proceeds_witness:
  "raised (create_optimizer (hp_ex\<lparr>optimizer_name := Some ''rmsprop''\<rparr>)
            (initial_state (0 :: int) 0 :: (int, int) state)) = None \<and>
   raised (run C_ex (hp_ex\<lparr>optimizer_name := Some ''rmsprop''\<rparr>) cfg_ex [2, 3] vdl_ex 0 0)
     = Some (UnboundLocalError ''optimizer'') \<and>
   trace (result_state
            (run C_ex (hp_ex\<lparr>optimizer_name := Some ''rmsprop''\<rparr>) cfg_ex [2, 3] vdl_ex 0 0))
     = [Print ''Unknown optimizer. Please choose between (adam, sgd).'',
        Print (CHR 0x0A # ''---- Training Model ----''), ModelTrain,
        Forward, ComputeLoss 2, Backward, ScalarSummary ''train/learning_rate'' 0 0]"
proof -
  have n: "optimizer_name (hp_ex\<lparr>optimizer_name := Some ''rmsprop''\<rparr>) = Some ''rmsprop''"
    "''rmsprop'' \<noteq> ''adam''" "''rmsprop'' \<noteq> ''sgd''"
    by simp_all
  have h: "subdivisions (hp_ex\<lparr>optimizer_name := Some ''rmsprop''\<rparr>) \<noteq> 0" "0 < epochs cfg_ex"
    by (simp_all add: hp_ex_def cfg_ex_def)
  have l: "fst (compute_loss C_ex 0 2) = 2"
    "adapt_lr (hp_ex\<lparr>optimizer_name := Some ''rmsprop''\<rparr>) 0 = 0"
    by (simp_all add: C_ex_def hp_ex_def adapt_lr_def)
  show ?thesis
    using unknown_optimizer_proceeds[OF n, of "initial_state (0 :: int) 0 :: (int, int) state"
        cfg_ex C_ex 2 "[3]" vdl_ex 0 0] h
    by (simp add: l)
qed

end
